theory Spec2Isabelle
  imports Complex_Main
begin

section \<open>The projection engine of app.py\<close>

text \<open>
  The script reads its parameters from input widgets, runs one loop over the months of the
  contract and appends one dictionary per month to the list \<open>data\<close>. The model keeps
  the names of the script's variables. Python floats (and the numpy floats the sliders
  return) are idealised as real numbers: every arithmetic operation is exact, so the
  theorems below speak about the arithmetic the script writes down and not about binary
  rounding. Python integers are \<open>int\<close>. The only exception the loop can raise under this
  idealisation is \<open>ZeroDivisionError\<close>, from \<open>%\<close> and from \<open>/\<close>.

  Exact arithmetic has no overflow. In the script a product or a sum beyond the range of
  a float is \<open>inf\<close>, later \<open>nan\<close>, and \<open>round\<close> on such a value raises
  \<open>OverflowError\<close> or \<open>ValueError\<close> (a fuel price of \<open>1e308\<close> does it at line 129).
  These two exceptions are outside the model: a run of the model stands for a run of the
  script in which every float stays finite, and nothing below states that the script
  raises no exception at all.
\<close>

subsection \<open>Errors and Python arithmetic\<close>

text \<open>An exception carries the line of app.py whose operation raised it, as the
  traceback does.\<close>

datatype error = ZeroDivisionError nat

text \<open>\<open>a % b\<close> on integers, at line \<open>line\<close>: raises on a zero divisor, otherwise the
  result has the sign of the divisor, as \<open>mod\<close> on \<open>int\<close> has.\<close>

definition py_mod :: "nat \<Rightarrow> int \<Rightarrow> int \<Rightarrow> error + int" where
  "py_mod line a b = (if b = 0 then Inl (ZeroDivisionError line) else Inr (a mod b))"

text \<open>\<open>a / b\<close> on floats, at line \<open>line\<close>: raises on a zero divisor.\<close>

definition py_div :: "nat \<Rightarrow> real \<Rightarrow> real \<Rightarrow> error + real" where
  "py_div line a b = (if b = 0 then Inl (ZeroDivisionError line) else Inr (a / b))"

text \<open>\<open>round(x)\<close> on a finite value: to the nearest integer, a tie goes to the even
  neighbour. (On \<open>inf\<close> and \<open>nan\<close>, which exact arithmetic does not produce, Python
  raises.)\<close>

definition py_round :: "real \<Rightarrow> int" where
  "py_round x =
     (let f = \<lfloor>x\<rfloor>; d = x - of_int f
      in if d < 1 / 2 then f
         else if 1 / 2 < d then f + 1
         else if even f then f else f + 1)"

text \<open>\<open>round(x, 2)\<close>: two decimal digits, same tie rule.\<close>

definition py_round2 :: "real \<Rightarrow> real" where
  "py_round2 x = of_int (py_round (x * 100)) / 100"

definition digit_char :: "nat \<Rightarrow> char" where
  "digit_char d = ''0123456789'' ! d"

function string_of_nat :: "nat \<Rightarrow> string" where
  "string_of_nat n =
     (if n < 10 then [digit_char n]
      else string_of_nat (n div 10) @ [digit_char (n mod 10)])"
  by pat_completeness auto
termination
  by (relation "measure (\<lambda>n. n)") auto

declare string_of_nat.simps [simp del]

text \<open>The format specification \<open>.1f\<close>: sign, integer digits, a point and one decimal
  digit, the value rounded to tenths.\<close>

definition format_1f :: "real \<Rightarrow> string" where
  "format_1f x =
     (let q = nat (py_round (\<bar>x\<bar> * 10))
      in (if x < 0 then ''-'' else '''') @ string_of_nat (q div 10) @ ''.''
         @ [digit_char (q mod 10)])"

subsection \<open>Input parameters (lines 43 to 82)\<close>

text \<open>One field per widget, holding the value the widget returns. The four percentage
  inputs of column 4 are divided by 100 by the script; the fields hold the raw entry and
  the script's variables are the definitions below.\<close>

record params =
  years :: int
  fleet_size :: int
  fuel_price :: real
  daily_fuel :: real
  op_days :: int
  saving_hull :: real
  saving_voyage :: real
  saving_emission :: real
  saving_scorecard :: real
  saving_propulsion :: real
  cost_hull :: real
  cost_voyage :: real
  cost_emission :: real
  cost_scorecard :: real
  cost_propulsion :: real
  ramp_up :: int
  cleaning_cost :: real
  cleaning_frequency :: int
  one_time_cost :: real
  crew_cost :: real
  monthly_deterioration_entry :: real
  yearly_sub_increase_entry :: real
  ramp_up_saving_entry :: real
  post_cleaning_saving_entry :: real

definition months :: "params \<Rightarrow> int" where
  "months p = years p * 12"

definition initial_sub_cost :: "params \<Rightarrow> real" where
  "initial_sub_cost p =
     cost_hull p + cost_voyage p + cost_emission p + cost_scorecard p + cost_propulsion p"

definition monthly_deterioration :: "params \<Rightarrow> real" where
  "monthly_deterioration p = monthly_deterioration_entry p / 100"

definition yearly_sub_increase :: "params \<Rightarrow> real" where
  "yearly_sub_increase p = yearly_sub_increase_entry p / 100"

definition ramp_up_saving_pct :: "params \<Rightarrow> real" where
  "ramp_up_saving_pct p = ramp_up_saving_entry p / 100"

definition post_cleaning_saving_pct :: "params \<Rightarrow> real" where
  "post_cleaning_saving_pct p = post_cleaning_saving_entry p / 100"

subsection \<open>Core logic (lines 84 to 139)\<close>

definition monthly_fuel_cost_base :: "params \<Rightarrow> real" where
  "monthly_fuel_cost_base p = fuel_price p * daily_fuel p * of_int (op_days p) / 12"

definition total_saving_pct :: "params \<Rightarrow> real" where
  "total_saving_pct p =
     saving_hull p + saving_voyage p + saving_emission p + saving_scorecard p
       + saving_propulsion p"

text \<open>One dictionary of \<open>data\<close>.\<close>

record monthly_record =
  Month :: int
  Fuel_Cost :: int
  Subscription_Cost :: int
  Cumulative_Subscription_Cost :: int
  Hull_Cleaning_Cost :: int
  Savings_in_Fuel :: real
  Fuel_Cost_Savings :: int
  Cumulative_Savings :: int
  Cumulative_Total_Cost :: int
  Profit :: int
  Cumulative_ROI :: string

text \<open>The variables that live across iterations.\<close>

record state =
  cumulative_sub_cost :: real
  cumulative_savings :: real
  cumulative_total_cost :: real
  total_fuel_mt :: real
  fuel_cost_current :: real
  sub_cost :: real
  saving_pct :: real
  last_saving_pct :: real
  data :: "monthly_record list"

text \<open>The variables assigned afresh in every iteration, before rounding.\<close>

record locals =
  fuel_saving_dollars :: real
  monthly_fuel_mt :: real
  hull_cleaning :: real
  other_cost :: real
  total_monthly_cost :: real
  profit :: real
  roi :: real

definition initial_state :: "params \<Rightarrow> state" where
  "initial_state p =
     \<lparr> cumulative_sub_cost = 0, cumulative_savings = 0, cumulative_total_cost = 0,
       total_fuel_mt = 0, fuel_cost_current = monthly_fuel_cost_base p,
       sub_cost = initial_sub_cost p, saving_pct = 0, last_saving_pct = 0, data = [] \<rparr>"

text \<open>Lines 100 to 102.\<close>

definition escalate :: "params \<Rightarrow> int \<Rightarrow> state \<Rightarrow> state" where
  "escalate p month s =
     (if month mod 12 = 1 \<and> 1 < month
      then s\<lparr> fuel_cost_current := fuel_cost_current s * (1 + yearly_sub_increase p),
              sub_cost := sub_cost s * (1 + yearly_sub_increase p) \<rparr>
      else s)"

text \<open>Lines 104 to 113. The modulo of the third test is only evaluated when the first two
  tests fail.\<close>

definition savings_policy :: "params \<Rightarrow> int \<Rightarrow> state \<Rightarrow> error + state" where
  "savings_policy p month s =
     (if month < ramp_up p then Inr (s\<lparr> saving_pct := 0 \<rparr>)
      else if ramp_up p < month \<and> month < cleaning_frequency p
      then Inr (s\<lparr> saving_pct := total_saving_pct p * ramp_up_saving_pct p \<rparr>)
      else
        (case py_mod 108 month (cleaning_frequency p) of
           Inl e \<Rightarrow> Inl e
         | Inr r \<Rightarrow>
             if r = 0 \<and> ramp_up p \<le> month
             then Inr (s\<lparr> saving_pct := total_saving_pct p * post_cleaning_saving_pct p,
                          last_saving_pct := total_saving_pct p * post_cleaning_saving_pct p \<rparr>)
             else Inr (s\<lparr> last_saving_pct :=
                            max 0 (last_saving_pct s - monthly_deterioration p * 100),
                          saving_pct :=
                            max 0 (last_saving_pct s - monthly_deterioration p * 100) \<rparr>)))"

text \<open>Lines 127 to 139, for finite values.\<close>

definition make_record :: "int \<Rightarrow> state \<Rightarrow> locals \<Rightarrow> monthly_record" where
  "make_record month s l =
     \<lparr> Month = month,
       Fuel_Cost = py_round (fuel_cost_current s),
       Subscription_Cost = py_round (sub_cost s),
       Cumulative_Subscription_Cost = py_round (cumulative_sub_cost s),
       Hull_Cleaning_Cost = py_round (hull_cleaning l),
       Savings_in_Fuel = py_round2 (saving_pct s),
       Fuel_Cost_Savings = py_round (fuel_saving_dollars l),
       Cumulative_Savings = py_round (cumulative_savings s),
       Cumulative_Total_Cost = py_round (cumulative_total_cost s),
       Profit = py_round (profit l),
       Cumulative_ROI = format_1f (roi l * 100) @ ''%'' \<rparr>"

text \<open>The body of the loop, lines 100 to 139, in the order of the statements.\<close>

definition month_step :: "params \<Rightarrow> int \<Rightarrow> state \<Rightarrow> error + (locals \<times> state)" where
  "month_step p month s0 =
     (case savings_policy p month (escalate p month s0) of
        Inl e \<Rightarrow> Inl e
      | Inr s1 \<Rightarrow>
          (case py_div 116 (fuel_cost_current s1) (fuel_price p) of
             Inl e \<Rightarrow> Inl e
           | Inr fuel_mt \<Rightarrow>
               (let fsd = fuel_cost_current s1 * (saving_pct s1 / 100);
                    s2 = s1\<lparr> total_fuel_mt := total_fuel_mt s1 + fuel_mt,
                             cumulative_savings := cumulative_savings s1 + fsd,
                             cumulative_sub_cost := cumulative_sub_cost s1 + sub_cost s1 \<rparr>
                in case py_mod 120 month (cleaning_frequency p) of
                     Inl e \<Rightarrow> Inl e
                   | Inr r \<Rightarrow>
                       (let hc = (if r = 0 \<and> ramp_up p \<le> month then cleaning_cost p else 0);
                            oc = (if month = 1 then one_time_cost p + crew_cost p else 0);
                            tmc = sub_cost s2 + hc + oc;
                            s3 = s2\<lparr> cumulative_total_cost := cumulative_total_cost s2 + tmc \<rparr>;
                            pr = cumulative_savings s3 - cumulative_total_cost s3;
                            ro = (if 0 < cumulative_total_cost s3
                                  then pr / cumulative_total_cost s3 else - 1);
                            l = \<lparr> fuel_saving_dollars = fsd, monthly_fuel_mt = fuel_mt,
                                  hull_cleaning = hc, other_cost = oc,
                                  total_monthly_cost = tmc, profit = pr, roi = ro \<rparr>
                        in Inr (l, s3\<lparr> data := data s3 @ [make_record month s3 l] \<rparr>)))))"

text \<open>The loop \<open>for month in range(1, months + 1)\<close>: \<open>run_months p n\<close> is the state after
  the iterations for months 1 to \<open>n\<close>, or the exception that stopped them.\<close>

fun run_months :: "params \<Rightarrow> nat \<Rightarrow> error + state" where
  "run_months p 0 = Inr (initial_state p)"
| "run_months p (Suc n) =
     (case run_months p n of
        Inl e \<Rightarrow> Inl e
      | Inr s \<Rightarrow> map_sum id snd (month_step p (int (Suc n)) s))"

definition run_projection :: "params \<Rightarrow> error + state" where
  "run_projection p = run_months p (nat (months p))"

subsection \<open>Inputs used in the examples\<close>

text \<open>The scenario of the specification's section 8: the widgets' default values with a
  one-year contract.\<close>

definition scenario :: params where
  "scenario =
     \<lparr> years = 1, fleet_size = 10, fuel_price = 550, daily_fuel = 20, op_days = 200,
       saving_hull = 2, saving_voyage = 1, saving_emission = 0.5, saving_scorecard = 0.2,
       saving_propulsion = 0, cost_hull = 250, cost_voyage = 250, cost_emission = 250,
       cost_scorecard = 250, cost_propulsion = 0, ramp_up = 6, cleaning_cost = 15000,
       cleaning_frequency = 9, one_time_cost = 1000, crew_cost = 100,
       monthly_deterioration_entry = 0.1, yearly_sub_increase_entry = 10,
       ramp_up_saving_entry = 60, post_cleaning_saving_entry = 100 \<rparr>"

text \<open>Variations of the scenario: a cleaning frequency of 0, a fuel price of 0, a ramp-up
  share equal to the post-cleaning share, and two-year contracts with whole and with
  fractional subscription costs.\<close>

definition zero_frequency :: params where
  "zero_frequency = scenario\<lparr> cleaning_frequency := 0 \<rparr>"

definition free_fuel :: params where
  "free_fuel = scenario\<lparr> fuel_price := 0 \<rparr>"

definition equal_shares :: params where
  "equal_shares = scenario\<lparr> ramp_up_saving_entry := 100 \<rparr>"

definition two_years :: params where
  "two_years = scenario\<lparr> years := 2 \<rparr>"

definition fractional_cost :: params where
  "fractional_cost = scenario\<lparr> years := 2, cost_hull := 263.4 \<rparr>"

text \<open>The scenario with a single saving percentage of 0.006.\<close>

definition tiny_saving :: params where
  "tiny_saving =
     scenario\<lparr> saving_hull := 6 / 1000, saving_voyage := 0, saving_emission := 0,
               saving_scorecard := 0, saving_propulsion := 0 \<rparr>"

subsection \<open>Conditions on the parameters\<close>

text \<open>The script checks none of these; they are the preconditions under which the
  properties below are stated.\<close>

definition costs_non_negative :: "params \<Rightarrow> bool" where
  "costs_non_negative p =
     (0 \<le> cost_hull p \<and> 0 \<le> cost_voyage p \<and> 0 \<le> cost_emission p \<and> 0 \<le> cost_scorecard p
      \<and> 0 \<le> cost_propulsion p \<and> 0 \<le> cleaning_cost p \<and> 0 \<le> one_time_cost p
      \<and> 0 \<le> crew_cost p \<and> 0 \<le> yearly_sub_increase_entry p)"

definition fuel_non_negative :: "params \<Rightarrow> bool" where
  "fuel_non_negative p = (0 \<le> fuel_price p \<and> 0 \<le> daily_fuel p \<and> 0 \<le> op_days p)"

definition savings_non_negative :: "params \<Rightarrow> bool" where
  "savings_non_negative p =
     (0 \<le> saving_hull p \<and> 0 \<le> saving_voyage p \<and> 0 \<le> saving_emission p
      \<and> 0 \<le> saving_scorecard p \<and> 0 \<le> saving_propulsion p)"

definition shares_non_negative :: "params \<Rightarrow> bool" where
  "shares_non_negative p = (0 \<le> ramp_up_saving_entry p \<and> 0 \<le> post_cleaning_saving_entry p)"

definition shares_at_most_100 :: "params \<Rightarrow> bool" where
  "shares_at_most_100 p =
     (ramp_up_saving_entry p \<le> 100 \<and> post_cleaning_saving_entry p \<le> 100)"

text \<open>The validation rules of the specification (its sections 4.1 and 6). The script has
  no validation code, so this predicate is only ever a hypothesis.\<close>

definition passes_validation :: "params \<Rightarrow> bool" where
  "passes_validation p =
     (1 \<le> years p \<and> years p \<le> 5 \<and> 1 \<le> fleet_size p \<and> fuel_non_negative p
      \<and> savings_non_negative p \<and> costs_non_negative p \<and> 0 \<le> ramp_up p
      \<and> 1 \<le> cleaning_frequency p \<and> 0 \<le> monthly_deterioration_entry p
      \<and> shares_non_negative p \<and> shares_at_most_100 p)"

section \<open>Auxiliary facts\<close>

subsection \<open>Rounding and the single step\<close>

lemma py_round_cases: "py_round x = \<lfloor>x\<rfloor> \<or> py_round x = \<lfloor>x\<rfloor> + 1"
  by (simp add: py_round_def Let_def)

lemma py_round_mono:
  assumes "x \<le> y"
  shows "py_round x \<le> py_round y"
proof -
  have "\<lfloor>x\<rfloor> \<le> \<lfloor>y\<rfloor>"
    using assms by (rule floor_mono)
  then consider (less) "\<lfloor>x\<rfloor> < \<lfloor>y\<rfloor>" | (same) "\<lfloor>x\<rfloor> = \<lfloor>y\<rfloor>"
    by linarith
  then show ?thesis
  proof cases
    case less
    have "py_round x \<le> \<lfloor>x\<rfloor> + 1"
      using py_round_cases [of x] by linarith
    moreover have "\<lfloor>y\<rfloor> \<le> py_round y"
      using py_round_cases [of y] by linarith
    ultimately show ?thesis
      using less by linarith
  next
    case same
    with assms show ?thesis
      by (simp add: py_round_def Let_def)
  qed
qed

lemma py_round_of_int [simp]: "py_round (of_int k) = k"
  by (simp add: py_round_def Let_def)

lemma py_round_nonneg: "0 \<le> x \<Longrightarrow> 0 \<le> py_round x"
  using py_round_mono [of 0 x] py_round_of_int [of 0] by simp

lemma py_round2_nonneg: "0 \<le> x \<Longrightarrow> 0 \<le> py_round2 x"
  by (simp add: py_round2_def py_round_nonneg)

lemma py_round2_le:
  assumes "x \<le> t" and "t * 100 = of_int k"
  shows "py_round2 x \<le> t"
proof -
  have "py_round (x * 100) \<le> py_round (t * 100)"
    using assms(1) by (intro py_round_mono) simp
  also have "py_round (t * 100) = k"
    by (simp add: assms(2))
  finally have "(of_int (py_round (x * 100)) :: real) \<le> of_int k"
    by simp
  then show ?thesis
    using assms(2) by (simp add: py_round2_def field_simps)
qed

lemma py_round2_mono:
  assumes "x \<le> y"
  shows "py_round2 x \<le> py_round2 y"
proof -
  from assms have "py_round (x * 100) \<le> py_round (y * 100)"
    by (intro py_round_mono) simp
  then show ?thesis
    by (simp add: py_round2_def divide_right_mono)
qed

lemma savings_policy_frame:
  assumes "savings_policy p m s = Inr s1"
  shows "fuel_cost_current s1 = fuel_cost_current s"
    and "sub_cost s1 = sub_cost s"
    and "cumulative_sub_cost s1 = cumulative_sub_cost s"
    and "cumulative_savings s1 = cumulative_savings s"
    and "cumulative_total_cost s1 = cumulative_total_cost s"
    and "total_fuel_mt s1 = total_fuel_mt s"
    and "data s1 = data s"
  using assms by (auto simp: savings_policy_def py_mod_def split: if_splits)

lemma savings_policy_total:
  assumes "cleaning_frequency p \<noteq> 0"
  shows "\<exists>s1. savings_policy p m s = Inr s1"
  using assms by (simp add: savings_policy_def py_mod_def)

lemma savings_policy_branches:
  assumes "savings_policy p m s = Inr s1"
  shows "m < ramp_up p \<Longrightarrow> saving_pct s1 = 0 \<and> last_saving_pct s1 = last_saving_pct s"
    and "\<not> m < ramp_up p \<Longrightarrow> ramp_up p < m \<and> m < cleaning_frequency p \<Longrightarrow>
           saving_pct s1 = total_saving_pct p * ramp_up_saving_pct p
           \<and> last_saving_pct s1 = last_saving_pct s"
    and "\<not> m < ramp_up p \<Longrightarrow> \<not> (ramp_up p < m \<and> m < cleaning_frequency p) \<Longrightarrow>
           m mod cleaning_frequency p = 0 \<and> ramp_up p \<le> m \<Longrightarrow>
           saving_pct s1 = total_saving_pct p * post_cleaning_saving_pct p
           \<and> last_saving_pct s1 = total_saving_pct p * post_cleaning_saving_pct p"
    and "\<not> m < ramp_up p \<Longrightarrow> \<not> (ramp_up p < m \<and> m < cleaning_frequency p) \<Longrightarrow>
           \<not> (m mod cleaning_frequency p = 0 \<and> ramp_up p \<le> m) \<Longrightarrow>
           saving_pct s1 = max 0 (last_saving_pct s - monthly_deterioration p * 100)
           \<and> last_saving_pct s1 = max 0 (last_saving_pct s - monthly_deterioration p * 100)"
  using assms by (auto simp: savings_policy_def py_mod_def split: if_splits)

lemma escalate_frame:
  "cumulative_sub_cost (escalate p m s) = cumulative_sub_cost s"
  "cumulative_savings (escalate p m s) = cumulative_savings s"
  "cumulative_total_cost (escalate p m s) = cumulative_total_cost s"
  "total_fuel_mt (escalate p m s) = total_fuel_mt s"
  "saving_pct (escalate p m s) = saving_pct s"
  "last_saving_pct (escalate p m s) = last_saving_pct s"
  "data (escalate p m s) = data s"
  by (simp_all add: escalate_def)

lemma escalate_levels:
  "fuel_cost_current (escalate p m s) =
     (if m mod 12 = 1 \<and> 1 < m then fuel_cost_current s * (1 + yearly_sub_increase p)
      else fuel_cost_current s)"
  "sub_cost (escalate p m s) =
     (if m mod 12 = 1 \<and> 1 < m then sub_cost s * (1 + yearly_sub_increase p)
      else sub_cost s)"
  by (simp_all add: escalate_def)

lemma month_step_split:
  assumes "month_step p m s = Inr (l, s')"
  obtains s1 where "savings_policy p m (escalate p m s) = Inr s1"
    and "fuel_price p \<noteq> 0" and "cleaning_frequency p \<noteq> 0"
    and "l = \<lparr> fuel_saving_dollars = fuel_cost_current s1 * (saving_pct s1 / 100),
               monthly_fuel_mt = fuel_cost_current s1 / fuel_price p,
               hull_cleaning =
                 (if m mod cleaning_frequency p = 0 \<and> ramp_up p \<le> m then cleaning_cost p else 0),
               other_cost = (if m = 1 then one_time_cost p + crew_cost p else 0),
               total_monthly_cost =
                 sub_cost s1
                 + (if m mod cleaning_frequency p = 0 \<and> ramp_up p \<le> m then cleaning_cost p else 0)
                 + (if m = 1 then one_time_cost p + crew_cost p else 0),
               profit = cumulative_savings s' - cumulative_total_cost s',
               roi = (if 0 < cumulative_total_cost s'
                      then (cumulative_savings s' - cumulative_total_cost s')
                           / cumulative_total_cost s'
                      else - 1) \<rparr>"
    and "s' = s1\<lparr> total_fuel_mt := total_fuel_mt s1 + fuel_cost_current s1 / fuel_price p,
                   cumulative_savings :=
                     cumulative_savings s1 + fuel_cost_current s1 * (saving_pct s1 / 100),
                   cumulative_sub_cost := cumulative_sub_cost s1 + sub_cost s1,
                   cumulative_total_cost :=
                     cumulative_total_cost s1
                     + (sub_cost s1
                        + (if m mod cleaning_frequency p = 0 \<and> ramp_up p \<le> m
                           then cleaning_cost p else 0)
                        + (if m = 1 then one_time_cost p + crew_cost p else 0)),
                   data := data s1 @ [make_record m s' l] \<rparr>"
proof -
  from assms obtain s1 where sp: "savings_policy p m (escalate p m s) = Inr s1"
    by (cases "savings_policy p m (escalate p m s)") (simp_all add: month_step_def)
  from assms sp have fp: "fuel_price p \<noteq> 0"
    by (auto simp: month_step_def py_div_def)
  from assms sp fp have cf: "cleaning_frequency p \<noteq> 0"
    by (auto simp: month_step_def py_div_def py_mod_def Let_def)
  note eq = assms [symmetric]
  show thesis
  proof (rule that [OF sp fp cf])
    show "l = \<lparr> fuel_saving_dollars = fuel_cost_current s1 * (saving_pct s1 / 100),
               monthly_fuel_mt = fuel_cost_current s1 / fuel_price p,
               hull_cleaning =
                 (if m mod cleaning_frequency p = 0 \<and> ramp_up p \<le> m then cleaning_cost p else 0),
               other_cost = (if m = 1 then one_time_cost p + crew_cost p else 0),
               total_monthly_cost =
                 sub_cost s1
                 + (if m mod cleaning_frequency p = 0 \<and> ramp_up p \<le> m then cleaning_cost p else 0)
                 + (if m = 1 then one_time_cost p + crew_cost p else 0),
               profit = cumulative_savings s' - cumulative_total_cost s',
               roi = (if 0 < cumulative_total_cost s'
                      then (cumulative_savings s' - cumulative_total_cost s')
                           / cumulative_total_cost s'
                      else - 1) \<rparr>"
      using eq sp fp cf by (simp add: month_step_def py_div_def py_mod_def Let_def)
    show "s' = s1\<lparr> total_fuel_mt := total_fuel_mt s1 + fuel_cost_current s1 / fuel_price p,
                   cumulative_savings :=
                     cumulative_savings s1 + fuel_cost_current s1 * (saving_pct s1 / 100),
                   cumulative_sub_cost := cumulative_sub_cost s1 + sub_cost s1,
                   cumulative_total_cost :=
                     cumulative_total_cost s1
                     + (sub_cost s1
                        + (if m mod cleaning_frequency p = 0 \<and> ramp_up p \<le> m
                           then cleaning_cost p else 0)
                        + (if m = 1 then one_time_cost p + crew_cost p else 0)),
                   data := data s1 @ [make_record m s' l] \<rparr>"
      using eq sp fp cf
      by (simp add: month_step_def py_div_def py_mod_def Let_def make_record_def)
  qed
qed

lemma month_step_fields:
  assumes "month_step p m s = Inr (l, s')"
  shows "cleaning_frequency p \<noteq> 0" 
    and "fuel_price p \<noteq> 0"
    and "fuel_cost_current s' = fuel_cost_current (escalate p m s)"
    and "sub_cost s' = sub_cost (escalate p m s)"
    and "monthly_fuel_mt l = fuel_cost_current s' / fuel_price p"
    and "total_fuel_mt s' = total_fuel_mt s + monthly_fuel_mt l"
    and "fuel_saving_dollars l = fuel_cost_current s' * (saving_pct s' / 100)"
    and "cumulative_savings s' = cumulative_savings s + fuel_saving_dollars l"
    and "cumulative_sub_cost s' = cumulative_sub_cost s + sub_cost s'"
    and "hull_cleaning l =
           (if m mod cleaning_frequency p = 0 \<and> ramp_up p \<le> m then cleaning_cost p else 0)"
    and "other_cost l = (if m = 1 then one_time_cost p + crew_cost p else 0)"
    and "total_monthly_cost l = sub_cost s' + hull_cleaning l + other_cost l"
    and "cumulative_total_cost s' = cumulative_total_cost s + total_monthly_cost l"
    and "profit l = cumulative_savings s' - cumulative_total_cost s'"
    and "roi l = (if 0 < cumulative_total_cost s' then profit l / cumulative_total_cost s' else - 1)"
    and "data s' = data s @ [make_record m s' l]"
proof -
  from assms obtain s1 where sp: "savings_policy p m (escalate p m s) = Inr s1"
    and fp: "fuel_price p \<noteq> 0" and cf: "cleaning_frequency p \<noteq> 0"
    and l: "l = \<lparr> fuel_saving_dollars = fuel_cost_current s1 * (saving_pct s1 / 100),
               monthly_fuel_mt = fuel_cost_current s1 / fuel_price p,
               hull_cleaning =
                 (if m mod cleaning_frequency p = 0 \<and> ramp_up p \<le> m then cleaning_cost p else 0),
               other_cost = (if m = 1 then one_time_cost p + crew_cost p else 0),
               total_monthly_cost =
                 sub_cost s1
                 + (if m mod cleaning_frequency p = 0 \<and> ramp_up p \<le> m then cleaning_cost p else 0)
                 + (if m = 1 then one_time_cost p + crew_cost p else 0),
               profit = cumulative_savings s' - cumulative_total_cost s',
               roi = (if 0 < cumulative_total_cost s'
                      then (cumulative_savings s' - cumulative_total_cost s')
                           / cumulative_total_cost s'
                      else - 1) \<rparr>"
    and s: "s' = s1\<lparr> total_fuel_mt := total_fuel_mt s1 + fuel_cost_current s1 / fuel_price p,
                   cumulative_savings :=
                     cumulative_savings s1 + fuel_cost_current s1 * (saving_pct s1 / 100),
                   cumulative_sub_cost := cumulative_sub_cost s1 + sub_cost s1,
                   cumulative_total_cost :=
                     cumulative_total_cost s1
                     + (sub_cost s1
                        + (if m mod cleaning_frequency p = 0 \<and> ramp_up p \<le> m
                           then cleaning_cost p else 0)
                        + (if m = 1 then one_time_cost p + crew_cost p else 0)),
                   data := data s1 @ [make_record m s' l] \<rparr>"
    by (rule month_step_split)
  note fr = savings_policy_frame [OF sp] escalate_frame
  have fcc: "fuel_cost_current s' = fuel_cost_current s1" and sc: "sub_cost s' = sub_cost s1"
    and svp: "saving_pct s' = saving_pct s1"
    by (subst s, simp)+
  show "cleaning_frequency p \<noteq> 0" by (rule cf)
  show "fuel_price p \<noteq> 0" by (rule fp)
  show "fuel_cost_current s' = fuel_cost_current (escalate p m s)"
    using fcc fr by simp
  show "sub_cost s' = sub_cost (escalate p m s)"
    using sc fr by simp
  show "monthly_fuel_mt l = fuel_cost_current s' / fuel_price p"
    unfolding fcc by (subst l) simp
  show "total_fuel_mt s' = total_fuel_mt s + monthly_fuel_mt l"
    by (subst s, subst l) (simp add: fr)
  show "fuel_saving_dollars l = fuel_cost_current s' * (saving_pct s' / 100)"
    unfolding fcc svp by (subst l) simp
  show "cumulative_savings s' = cumulative_savings s + fuel_saving_dollars l"
    by (subst s, subst l) (simp add: fr)
  show "cumulative_sub_cost s' = cumulative_sub_cost s + sub_cost s'"
    unfolding sc by (subst s) (simp add: fr)
  show "hull_cleaning l =
           (if m mod cleaning_frequency p = 0 \<and> ramp_up p \<le> m then cleaning_cost p else 0)"
    by (subst l) simp
  show "other_cost l = (if m = 1 then one_time_cost p + crew_cost p else 0)"
    by (subst l) simp
  show "total_monthly_cost l = sub_cost s' + hull_cleaning l + other_cost l"
    unfolding sc by (subst l, subst l, subst l) simp
  show "cumulative_total_cost s' = cumulative_total_cost s + total_monthly_cost l"
    by (subst s, subst l) (simp add: fr)
  show "profit l = cumulative_savings s' - cumulative_total_cost s'"
    by (subst l) simp
  show "roi l = (if 0 < cumulative_total_cost s' then profit l / cumulative_total_cost s' else - 1)"
    by (subst l, subst l) simp
  show "data s' = data s @ [make_record m s' l]"
    by (subst s) (simp add: fr)
qed

lemma month_step_policy:
  assumes "month_step p m s = Inr (l, s')"
  shows "\<exists>s1. savings_policy p m (escalate p m s) = Inr s1 \<and> saving_pct s' = saving_pct s1
           \<and> last_saving_pct s' = last_saving_pct s1"
proof -
  from assms obtain s1 where sp: "savings_policy p m (escalate p m s) = Inr s1"
    and s: "s' = s1\<lparr> total_fuel_mt := total_fuel_mt s1 + fuel_cost_current s1 / fuel_price p,
                   cumulative_savings :=
                     cumulative_savings s1 + fuel_cost_current s1 * (saving_pct s1 / 100),
                   cumulative_sub_cost := cumulative_sub_cost s1 + sub_cost s1,
                   cumulative_total_cost :=
                     cumulative_total_cost s1
                     + (sub_cost s1
                        + (if m mod cleaning_frequency p = 0 \<and> ramp_up p \<le> m
                           then cleaning_cost p else 0)
                        + (if m = 1 then one_time_cost p + crew_cost p else 0)),
                   data := data s1 @ [make_record m s' l] \<rparr>"
    by (rule month_step_split)
  have "saving_pct s' = saving_pct s1" and "last_saving_pct s' = last_saving_pct s1"
    by (subst s, simp)+
  with sp show ?thesis by blast
qed

lemma month_step_total:
  assumes "cleaning_frequency p \<noteq> 0" and "fuel_price p \<noteq> 0"
  shows "\<exists>l s'. month_step p m s = Inr (l, s')"
proof -
  from assms(1) obtain s1 where "savings_policy p m (escalate p m s) = Inr s1"
    using savings_policy_total by blast
  with assms show ?thesis
    by (simp add: month_step_def py_div_def py_mod_def Let_def)
qed

subsection \<open>The loop\<close>

lemma run_months_Suc_Inr:
  assumes "run_months p (Suc n) = Inr s'"
  obtains s l where "run_months p n = Inr s" and "month_step p (int (Suc n)) s = Inr (l, s')"
proof (cases "run_months p n")
  case (Inl e)
  with assms show thesis by simp
next
  case (Inr s)
  with assms obtain l where "month_step p (int (Suc n)) s = Inr (l, s')"
    by (cases "month_step p (int (Suc n)) s") auto
  with Inr show thesis by (rule that)
qed

lemma run_months_step:
  assumes "run_months p n = Inr s" and "month_step p (int (Suc n)) s = Inr (l, s')"
  shows "run_months p (Suc n) = Inr s'"
  using assms by simp

lemma run_months_total:
  assumes "cleaning_frequency p \<noteq> 0" and "fuel_price p \<noteq> 0"
  shows "\<exists>s. run_months p n = Inr s"
proof (induction n)
  case 0
  show ?case by simp
next
  case (Suc n)
  then obtain s where s: "run_months p n = Inr s" by blast
  obtain l s' where "month_step p (int (Suc n)) s = Inr (l, s')"
    using month_step_total [OF assms] by blast
  with s have "run_months p (Suc n) = Inr s'" by (rule run_months_step)
  then show ?case by blast
qed

lemma run_months_prefix:
  assumes "run_months p n = Inr s" and "k \<le> n"
  shows "\<exists>sk. run_months p k = Inr sk"
  using assms
proof (induction n arbitrary: s)
  case 0
  then show ?case by simp
next
  case (Suc n)
  show ?case
  proof (cases "k = Suc n")
    case True
    with Suc.prems show ?thesis by blast
  next
    case False
    with Suc.prems have "k \<le> n" by simp
    moreover obtain s0 l where "run_months p n = Inr s0"
      using Suc.prems(1) by (rule run_months_Suc_Inr)
    ultimately show ?thesis using Suc.IH by blast
  qed
qed

lemma run_months_failure:
  assumes "run_months p k = Inl e" and "k \<le> n"
  shows "run_months p n = Inl e"
  using assms(2)
proof (induction n)
  case 0
  with assms(1) show ?case by simp
next
  case (Suc n)
  show ?case
  proof (cases "k = Suc n")
    case True
    with assms(1) show ?thesis by simp
  next
    case False
    with Suc have "run_months p n = Inl e" by simp
    then show ?thesis by simp
  qed
qed

lemma run_months_length:
  assumes "run_months p n = Inr s"
  shows "length (data s) = n"
  using assms
proof (induction n arbitrary: s)
  case 0
  then show ?case by (auto simp: initial_state_def)
next
  case (Suc n)
  from Suc.prems obtain s0 l where s0: "run_months p n = Inr s0"
    and st: "month_step p (int (Suc n)) s0 = Inr (l, s)"
    by (rule run_months_Suc_Inr)
  from st have "data s = data s0 @ [make_record (int (Suc n)) s l]"
    by (rule month_step_fields)
  with Suc.IH [OF s0] show ?case by simp
qed

lemma run_months_nth:
  assumes "run_months p n = Inr s" and "i < n"
  shows "\<exists>s0 l s1. run_months p i = Inr s0 \<and> month_step p (int (Suc i)) s0 = Inr (l, s1)
           \<and> data s ! i = make_record (int (Suc i)) s1 l"
  using assms
proof (induction n arbitrary: s)
  case 0
  then show ?case by simp
next
  case (Suc n)
  from Suc.prems(1) obtain s0 l where s0: "run_months p n = Inr s0"
    and st: "month_step p (int (Suc n)) s0 = Inr (l, s)"
    by (rule run_months_Suc_Inr)
  from st have d: "data s = data s0 @ [make_record (int (Suc n)) s l]"
    by (rule month_step_fields)
  have len: "length (data s0) = n"
    using s0 by (rule run_months_length)
  show ?case
  proof (cases "i = n")
    case True
    have "data s ! i = make_record (int (Suc i)) s l"
      unfolding d True using nth_append_length [of "data s0"] len by simp
    with s0 st True show ?thesis by blast
  next
    case False
    with Suc.prems(2) have "i < n" by simp
    from Suc.IH [OF s0 this] obtain a l' b where "run_months p i = Inr a"
      and "month_step p (int (Suc i)) a = Inr (l', b)"
      and "data s0 ! i = make_record (int (Suc i)) b l'"
      by blast
    moreover have "data s ! i = data s0 ! i"
      using d len \<open>i < n\<close> by (simp add: nth_append)
    ultimately show ?thesis by auto
  qed
qed

lemma escalation_month: "int (Suc (Suc n)) mod 12 = 1 \<longleftrightarrow> Suc n mod 12 = 0"
  by presburger

lemma run_months_levels:
  assumes "run_months p (Suc n) = Inr s"
  shows "fuel_cost_current s = monthly_fuel_cost_base p * (1 + yearly_sub_increase p) ^ (n div 12)"
    and "sub_cost s = initial_sub_cost p * (1 + yearly_sub_increase p) ^ (n div 12)"
proof -
  have "fuel_cost_current s = monthly_fuel_cost_base p * (1 + yearly_sub_increase p) ^ (n div 12)
      \<and> sub_cost s = initial_sub_cost p * (1 + yearly_sub_increase p) ^ (n div 12)"
    using assms
  proof (induction n arbitrary: s)
    case 0
    from 0 obtain s0 l where "run_months p 0 = Inr s0"
      and "month_step p (int (Suc 0)) s0 = Inr (l, s)"
      by (rule run_months_Suc_Inr)
    then have st: "month_step p (int (Suc 0)) (initial_state p) = Inr (l, s)"
      by simp
    have "fuel_cost_current s = fuel_cost_current (escalate p (int (Suc 0)) (initial_state p))"
      and "sub_cost s = sub_cost (escalate p (int (Suc 0)) (initial_state p))"
      using st by (rule month_step_fields)+
    then show ?case
      by (simp add: escalate_levels initial_state_def)
  next
    case (Suc n)
    from Suc.prems obtain s0 l where s0: "run_months p (Suc n) = Inr s0"
      and st: "month_step p (int (Suc (Suc n))) s0 = Inr (l, s)"
      by (rule run_months_Suc_Inr)
    note ih = Suc.IH [OF s0]
    have f: "fuel_cost_current s = fuel_cost_current (escalate p (int (Suc (Suc n))) s0)"
      and c: "sub_cost s = sub_cost (escalate p (int (Suc (Suc n))) s0)"
      using st by (rule month_step_fields)+
    have gt: "1 < int (Suc (Suc n))" by simp
    show ?case
    proof (cases "Suc n mod 12 = 0")
      case True
      then have e: "Suc n div 12 = Suc (n div 12)"
        by (simp add: div_Suc)
      from True have m: "int (Suc (Suc n)) mod 12 = 1"
        by (rule iffD2 [OF escalation_month])
      show ?thesis
        unfolding f c e escalate_levels using m gt ih by simp
    next
      case False
      then have e: "Suc n div 12 = n div 12"
        by (simp add: div_Suc)
      have m: "int (Suc (Suc n)) mod 12 \<noteq> 1"
      proof
        assume "int (Suc (Suc n)) mod 12 = 1"
        then have "Suc n mod 12 = 0"
          by (rule iffD1 [OF escalation_month])
        with False show False by contradiction
      qed
      show ?thesis
        unfolding f c e escalate_levels using m ih by simp
    qed
  qed
  then show "fuel_cost_current s = monthly_fuel_cost_base p * (1 + yearly_sub_increase p) ^ (n div 12)"
    and "sub_cost s = initial_sub_cost p * (1 + yearly_sub_increase p) ^ (n div 12)"
    by simp_all
qed

lemma run_months_Month:
  assumes "run_months p n = Inr s" and "i < n"
  shows "Month (data s ! i) = int (Suc i)"
proof -
  from run_months_nth [OF assms] obtain s1 l
    where "data s ! i = make_record (int (Suc i)) s1 l"
    by blast
  then show ?thesis
    by (simp add: make_record_def)
qed

subsection \<open>Signs and bounds along a run\<close>

lemma escalation_factor_non_negative:
  assumes "costs_non_negative p"
  shows "0 \<le> (1 + yearly_sub_increase p) ^ k"
proof -
  from assms have "0 \<le> yearly_sub_increase p"
    by (simp add: costs_non_negative_def yearly_sub_increase_def)
  then show ?thesis by simp
qed

lemma sub_cost_non_negative:
  assumes "costs_non_negative p" and "run_months p n = Inr s"
  shows "0 \<le> sub_cost s"
proof -
  from assms(1) have i: "0 \<le> initial_sub_cost p"
    by (simp add: costs_non_negative_def initial_sub_cost_def)
  show ?thesis
  proof (cases n)
    case 0
    with assms(2) i show ?thesis by (auto simp: initial_state_def)
  next
    case (Suc k)
    with assms(2) have "sub_cost s = initial_sub_cost p * (1 + yearly_sub_increase p) ^ (k div 12)"
      by (simp only: run_months_levels)
    with i escalation_factor_non_negative [OF assms(1)] show ?thesis
      by simp
  qed
qed

lemma fuel_cost_non_negative:
  assumes "costs_non_negative p" and "fuel_non_negative p" and "run_months p n = Inr s"
  shows "0 \<le> fuel_cost_current s"
proof -
  from assms(2) have i: "0 \<le> monthly_fuel_cost_base p"
    by (simp add: fuel_non_negative_def monthly_fuel_cost_base_def)
  show ?thesis
  proof (cases n)
    case 0
    with assms(3) i show ?thesis by (auto simp: initial_state_def)
  next
    case (Suc k)
    with assms(3) have "fuel_cost_current s
        = monthly_fuel_cost_base p * (1 + yearly_sub_increase p) ^ (k div 12)"
      by (simp only: run_months_levels)
    with i escalation_factor_non_negative [OF assms(1)] show ?thesis
      by simp
  qed
qed

lemma total_saving_non_negative:
  "savings_non_negative p \<Longrightarrow> 0 \<le> total_saving_pct p"
  by (simp add: savings_non_negative_def total_saving_pct_def)

lemma saving_pct_non_negative:
  assumes "savings_non_negative p" and "shares_non_negative p"
    and "month_step p m s = Inr (l, s')"
  shows "0 \<le> saving_pct s'"
proof -
  from assms(3) obtain s1 where sp: "savings_policy p m (escalate p m s) = Inr s1"
    and sv: "saving_pct s' = saving_pct s1"
    using month_step_policy by blast
  have t: "0 \<le> total_saving_pct p"
    using assms(1) by (rule total_saving_non_negative)
  from assms(2) have "0 \<le> ramp_up_saving_pct p" and "0 \<le> post_cleaning_saving_pct p"
    by (simp_all add: shares_non_negative_def ramp_up_saving_pct_def post_cleaning_saving_pct_def)
  with t have "0 \<le> total_saving_pct p * ramp_up_saving_pct p"
    and "0 \<le> total_saving_pct p * post_cleaning_saving_pct p"
    by simp_all
  with sp show ?thesis
    unfolding sv by (auto simp: savings_policy_def py_mod_def split: if_splits)
qed

lemma saving_pct_at_most_total:
  assumes "savings_non_negative p" and "shares_non_negative p" and "shares_at_most_100 p"
    and "0 \<le> monthly_deterioration_entry p"
    and "month_step p m s = Inr (l, s')" and "last_saving_pct s \<le> total_saving_pct p"
  shows "saving_pct s' \<le> total_saving_pct p \<and> last_saving_pct s' \<le> total_saving_pct p"
proof -
  from assms(5) obtain s1 where sp: "savings_policy p m (escalate p m s) = Inr s1"
    and sv: "saving_pct s' = saving_pct s1" and ls: "last_saving_pct s' = last_saving_pct s1"
    using month_step_policy by blast
  have t: "0 \<le> total_saving_pct p"
    using assms(1) by (rule total_saving_non_negative)
  from assms(3) have "ramp_up_saving_pct p \<le> 1" and "post_cleaning_saving_pct p \<le> 1"
    by (simp_all add: shares_at_most_100_def ramp_up_saving_pct_def post_cleaning_saving_pct_def)
  with t have r: "total_saving_pct p * ramp_up_saving_pct p \<le> total_saving_pct p"
    and c: "total_saving_pct p * post_cleaning_saving_pct p \<le> total_saving_pct p"
    by (simp_all add: mult_left_le)
  from assms(4) have d: "0 \<le> monthly_deterioration p * 100"
    by (simp add: monthly_deterioration_def)
  from sp t r c d assms(6) show ?thesis
    unfolding sv ls
    by (auto simp: savings_policy_def py_mod_def escalate_frame split: if_splits)
qed

lemma last_saving_at_most_total:
  assumes "savings_non_negative p" and "shares_non_negative p" and "shares_at_most_100 p"
    and "0 \<le> monthly_deterioration_entry p" and "run_months p n = Inr s"
  shows "last_saving_pct s \<le> total_saving_pct p"
  using assms(5)
proof (induction n arbitrary: s)
  case 0
  with total_saving_non_negative [OF assms(1)] show ?case
    by (auto simp: initial_state_def)
next
  case (Suc n)
  from Suc.prems obtain s0 l where s0: "run_months p n = Inr s0"
    and st: "month_step p (int (Suc n)) s0 = Inr (l, s)"
    by (rule run_months_Suc_Inr)
  from saving_pct_at_most_total [OF assms(1-4) st Suc.IH [OF s0]] show ?case
    by simp
qed

lemma month_step_monotone:
  assumes "month_step p m s = Inr (l, s')"
    and "0 \<le> sub_cost s'" and "0 \<le> fuel_cost_current s'" and "0 \<le> saving_pct s'"
    and "0 \<le> cleaning_cost p" and "0 \<le> one_time_cost p" and "0 \<le> crew_cost p"
  shows "cumulative_sub_cost s \<le> cumulative_sub_cost s'"
    and "cumulative_savings s \<le> cumulative_savings s'"
    and "cumulative_total_cost s \<le> cumulative_total_cost s'"
proof -
  note f = month_step_fields [OF assms(1)]
  show "cumulative_sub_cost s \<le> cumulative_sub_cost s'"
    using f(9) assms(2) by simp
  have "0 \<le> fuel_saving_dollars l"
    unfolding f(7) using assms(3,4) by simp
  then show "cumulative_savings s \<le> cumulative_savings s'"
    using f(8) by simp
  have "0 \<le> hull_cleaning l" and "0 \<le> other_cost l"
    unfolding f(10) f(11) using assms(5-7) by simp_all
  then have "0 \<le> total_monthly_cost l"
    unfolding f(12) using assms(2) by simp
  then show "cumulative_total_cost s \<le> cumulative_total_cost s'"
    using f(13) by simp
qed

lemma total_cost_non_negative:
  assumes "costs_non_negative p" and "run_months p n = Inr s"
  shows "0 \<le> cumulative_total_cost s"
  using assms(2)
proof (induction n arbitrary: s)
  case 0
  then show ?case by (auto simp: initial_state_def)
next
  case (Suc n)
  from Suc.prems obtain s0 l where s0: "run_months p n = Inr s0"
    and st: "month_step p (int (Suc n)) s0 = Inr (l, s)"
    by (rule run_months_Suc_Inr)
  note f = month_step_fields [OF st]
  have "0 \<le> sub_cost s"
    using assms(1) Suc.prems by (rule sub_cost_non_negative)
  moreover have "0 \<le> hull_cleaning l" and "0 \<le> other_cost l"
    unfolding f(10) f(11) using assms(1) by (simp_all add: costs_non_negative_def)
  ultimately have "0 \<le> total_monthly_cost l"
    unfolding f(12) by simp
  with Suc.IH [OF s0] show ?case
    using f(13) by simp
qed

subsection \<open>Month 1 of the scenario\<close>

lemma scenario_month_1:
  "(case month_step scenario 1 (initial_state scenario) of
      Inl e \<Rightarrow> False
    | Inr (l, s') \<Rightarrow>
        cumulative_savings s' = 0 \<and> cumulative_total_cost s' = 2100 \<and> sub_cost s' = 1000
        \<and> total_monthly_cost l = 2100 \<and> saving_pct s' = 0
        \<and> Subscription_Cost (last (data s')) = 1000 \<and> Savings_in_Fuel (last (data s')) = 0)"
  by code_simp

subsection \<open>The recorded subscription cost\<close>

lemma recorded_subscription_cost:
  assumes "run_months p n = Inr s" and "i < n"
  shows "Subscription_Cost (data s ! i)
           = py_round (initial_sub_cost p * (1 + yearly_sub_increase p) ^ (i div 12))"
proof -
  from run_months_nth [OF assms] obtain s0 l a
    where s0: "run_months p i = Inr s0" and st: "month_step p (int (Suc i)) s0 = Inr (l, a)"
      and ri: "data s ! i = make_record (int (Suc i)) a l"
    by blast
  from s0 st have "run_months p (Suc i) = Inr a"
    by (rule run_months_step)
  then have "sub_cost a = initial_sub_cost p * (1 + yearly_sub_increase p) ^ (i div 12)"
    by (rule run_months_levels)
  then show ?thesis
    unfolding ri by (simp add: make_record_def)
qed

lemma fractional_cost_values:
  "initial_sub_cost fractional_cost = 10134 / 10"
  "yearly_sub_increase fractional_cost = 1 / 10"
  "nat (months fractional_cost) = 24"
  "cleaning_frequency fractional_cost \<noteq> 0"
  "fuel_price fractional_cost \<noteq> 0"
  by (simp_all add: fractional_cost_def scenario_def initial_sub_cost_def
      yearly_sub_increase_def months_def)

subsection \<open>Later months of the scenario and of its variation with equal shares\<close>

lemma scenario_month_12:
  "(case run_months scenario 11 of
      Inl e \<Rightarrow> False
    | Inr s11 \<Rightarrow>
        (case month_step scenario 12 s11 of
           Inl e \<Rightarrow> False
         | Inr (l12, s12) \<Rightarrow>
             length (data s12) = 12
             \<and> Month (data s12 ! 0) = 1
             \<and> Subscription_Cost (data s12 ! 0) = 1000
             \<and> Savings_in_Fuel (data s12 ! 0) = 0
             \<and> Month (data s12 ! 8) = 9
             \<and> Savings_in_Fuel (data s12 ! 8) = 37 / 10
             \<and> Hull_Cleaning_Cost (data s12 ! 8) = 15000
             \<and> map Hull_Cleaning_Cost (take 8 (data s12)) = [0, 0, 0, 0, 0, 0, 0, 0]
             \<and> Month (data s12 ! 11) = 12
             \<and> profit l12 = 18220 / 3
             \<and> cumulative_total_cost s12 = 28100
             \<and> Cumulative_ROI (data s12 ! 11)
                 = format_1f (profit l12 / cumulative_total_cost s12 * 100) @ ''%''
             \<and> Cumulative_ROI (data s12 ! 11) = ''21.6%''))"
  by code_simp

lemma equal_shares_month_7:
  "(case run_months equal_shares 6 of
      Inl e \<Rightarrow> False
    | Inr s6 \<Rightarrow>
        (case month_step equal_shares 7 s6 of
           Inl e \<Rightarrow> False
         | Inr (l7, s7) \<Rightarrow>
             saving_pct s7 = 37 / 10 \<and> hull_cleaning l7 = 0
             \<and> Month (last (data s7)) = 7
             \<and> Savings_in_Fuel (last (data s7)) = 37 / 10
             \<and> Hull_Cleaning_Cost (last (data s7)) = 0))"
  by code_simp

subsection \<open>The fuel mass\<close>

lemma monthly_fuel_value:
  assumes "run_months p n = Inr s" and "month_step p (int (Suc n)) s = Inr (l, s')"
  shows "monthly_fuel_mt l
           = daily_fuel p * of_int (op_days p) / 12 * (1 + yearly_sub_increase p) ^ (n div 12)"
proof -
  note f = month_step_fields [OF assms(2)]
  from assms have "run_months p (Suc n) = Inr s'"
    by (rule run_months_step)
  then have "fuel_cost_current s'
      = monthly_fuel_cost_base p * (1 + yearly_sub_increase p) ^ (n div 12)"
    by (rule run_months_levels)
  with f(2) show ?thesis
    unfolding f(5) by (simp add: monthly_fuel_cost_base_def)
qed

lemma total_fuel_value:
  assumes "run_months p n = Inr s"
  shows "total_fuel_mt s
           = (\<Sum>k<n. daily_fuel p * of_int (op_days p) / 12
                      * (1 + yearly_sub_increase p) ^ (k div 12))"
  using assms
proof (induction n arbitrary: s)
  case 0
  then show ?case by (auto simp: initial_state_def)
next
  case (Suc n)
  from Suc.prems obtain s0 l where s0: "run_months p n = Inr s0"
    and st: "month_step p (int (Suc n)) s0 = Inr (l, s)"
    by (rule run_months_Suc_Inr)
  have "total_fuel_mt s = total_fuel_mt s0 + monthly_fuel_mt l"
    using st by (rule month_step_fields)
  with Suc.IH [OF s0] monthly_fuel_value [OF s0 st] show ?case
    by simp
qed

section \<open>The claims\<close>

subsection \<open>C1: precedence of the savings policy\<close>

text \<open>
  C1. In every month \<open>m\<close> of a run the savings policy takes the first branch that
  matches, in this order: \<open>m < rampUp\<close> gives saving 0; else \<open>rampUp < m < cleaningFrequency\<close>
  gives \<open>totalSavingPct * rampShare\<close>; else \<open>m % cleaningFrequency = 0\<close> and \<open>m \<ge> rampUp\<close>
  gives \<open>totalSavingPct * cleaningShare\<close>, which also becomes \<open>lastSavingPct\<close>; else the
  saving is \<open>max(0, lastSavingPct - deterioration * 100)\<close>, which also becomes
  \<open>lastSavingPct\<close>. The first two branches leave \<open>lastSavingPct\<close> as it was. At
  \<open>m = rampUp\<close> the month is a cleaning month when \<open>rampUp\<close> is a multiple of the
  cleaning frequency and a deterioration month otherwise. Here \<open>s\<close> is the state before
  month \<open>n + 1\<close> and \<open>s'\<close> the state after it.
\<close>

theorem savings_policy_precedence:
  assumes "run_months p n = Inr s" and "run_months p (Suc n) = Inr s'"
  shows "(let m = int (Suc n); R = ramp_up p; F = cleaning_frequency p;
              ramp = total_saving_pct p * ramp_up_saving_pct p;
              cleaned = total_saving_pct p * post_cleaning_saving_pct p;
              decayed = max 0 (last_saving_pct s - monthly_deterioration p * 100)
          in (m < R \<longrightarrow> saving_pct s' = 0 \<and> last_saving_pct s' = last_saving_pct s)
           \<and> (\<not> m < R \<and> R < m \<and> m < F \<longrightarrow>
                 saving_pct s' = ramp \<and> last_saving_pct s' = last_saving_pct s)
           \<and> (\<not> m < R \<and> \<not> (R < m \<and> m < F) \<and> m mod F = 0 \<and> R \<le> m \<longrightarrow>
                 saving_pct s' = cleaned \<and> last_saving_pct s' = cleaned)
           \<and> (\<not> m < R \<and> \<not> (R < m \<and> m < F) \<and> \<not> (m mod F = 0 \<and> R \<le> m) \<longrightarrow>
                 saving_pct s' = decayed \<and> last_saving_pct s' = decayed)
           \<and> (m = R \<and> R mod F = 0 \<longrightarrow> saving_pct s' = cleaned \<and> last_saving_pct s' = cleaned)
           \<and> (m = R \<and> R mod F \<noteq> 0 \<longrightarrow> saving_pct s' = decayed \<and> last_saving_pct s' = decayed))"
proof -
  from assms(2) obtain s0 l where "run_months p n = Inr s0"
    and "month_step p (int (Suc n)) s0 = Inr (l, s')"
    by (rule run_months_Suc_Inr)
  with assms(1) have st: "month_step p (int (Suc n)) s = Inr (l, s')"
    by simp
  then obtain s1 where sp: "savings_policy p (int (Suc n)) (escalate p (int (Suc n)) s) = Inr s1"
    and sv: "saving_pct s' = saving_pct s1" and ls: "last_saving_pct s' = last_saving_pct s1"
    using month_step_policy by blast
  note br = savings_policy_branches [OF sp, unfolded escalate_frame, folded sv ls]
  show ?thesis
    unfolding Let_def using br by auto
qed

theorem savings_policy_precedence_witness:
  "\<not> isl (run_months scenario 5) \<and> \<not> isl (run_months scenario 6)
   \<and> saving_pct (projr (run_months scenario 6))
       = max 0 (last_saving_pct (projr (run_months scenario 5)) - 1 / 10)
   \<and> last_saving_pct (projr (run_months scenario 6))
       = max 0 (last_saving_pct (projr (run_months scenario 5)) - 1 / 10)"
proof -
  have ok: "cleaning_frequency scenario \<noteq> 0" "fuel_price scenario \<noteq> 0"
    by (simp_all add: scenario_def)
  obtain a where a: "run_months scenario 5 = Inr a"
    using run_months_total [OF ok] by blast
  obtain b where b: "run_months scenario (Suc 5) = Inr b"
    using run_months_total [OF ok] by blast
  have six: "Suc 5 = 6" by simp
  from savings_policy_precedence [OF a b] a b show ?thesis
    unfolding six by (simp add: Let_def scenario_def monthly_deterioration_def)
qed

subsection \<open>C2: a cleaning frequency of 0\<close>

text \<open>
  C2 as stated fails: with a cleaning frequency of 0 the script raises no validation error
  before the loop. The loop starts, and its first iteration raises Python's
  \<open>ZeroDivisionError\<close>; in the scenario with frequency 0 that happens at line 120, after
  the statements of lines 104 to 119 have run for month 1.
\<close>

theorem zero_frequency_counterexample:
  "run_projection zero_frequency = Inl (ZeroDivisionError 120)
   \<and> run_months zero_frequency 0 = Inr (initial_state zero_frequency)
   \<and> month_step zero_frequency 1 (initial_state zero_frequency) = Inl (ZeroDivisionError 120)"
  by code_simp

text \<open>
  C2, amended. For a cleaning frequency of 0 and a contract of at least one year (the slider
  allows 1 to 5), the run fails in the iteration of month 1 with a \<open>ZeroDivisionError\<close>
  raised at line 108, 116 or 120, and yields no state and so no record.
\<close>

theorem zero_frequency_raises:
  assumes "cleaning_frequency p = 0" and "1 \<le> years p"
  shows "\<exists>line. (line = 108 \<or> line = 116 \<or> line = 120)
           \<and> month_step p 1 (initial_state p) = Inl (ZeroDivisionError line)
           \<and> run_projection p = Inl (ZeroDivisionError line)"
proof -
  have "\<exists>line. (line = 108 \<or> line = 116 \<or> line = 120)
           \<and> month_step p 1 (initial_state p) = Inl (ZeroDivisionError line)"
  proof (cases "1 < ramp_up p")
    case True
    then have "\<exists>s1. savings_policy p 1 (escalate p 1 (initial_state p)) = Inr s1"
      by (simp add: savings_policy_def)
    then obtain s1 where "savings_policy p 1 (escalate p 1 (initial_state p)) = Inr s1"
      by blast
    with assms(1) show ?thesis
      by (cases "fuel_price p = 0") (simp_all add: month_step_def py_div_def py_mod_def Let_def)
  next
    case False
    with assms(1) have "savings_policy p 1 (escalate p 1 (initial_state p))
        = Inl (ZeroDivisionError 108)"
      by (simp add: savings_policy_def py_mod_def)
    then show ?thesis
      by (simp add: month_step_def)
  qed
  then obtain line where l: "line = 108 \<or> line = 116 \<or> line = 120"
    and st: "month_step p 1 (initial_state p) = Inl (ZeroDivisionError line)"
    by blast
  from st have "run_months p (Suc 0) = Inl (ZeroDivisionError line)"
    by simp
  moreover from assms(2) have "Suc 0 \<le> nat (months p)"
    by (simp add: months_def)
  ultimately have "run_months p (nat (months p)) = Inl (ZeroDivisionError line)"
    by (rule run_months_failure)
  with l st show ?thesis
    unfolding run_projection_def by blast
qed

theorem zero_frequency_raises_witness:
  "cleaning_frequency zero_frequency = 0 \<and> 1 \<le> years zero_frequency
   \<and> (\<exists>line. month_step zero_frequency 1 (initial_state zero_frequency)
                 = Inl (ZeroDivisionError line)
             \<and> run_projection zero_frequency = Inl (ZeroDivisionError line))"
proof -
  have h: "cleaning_frequency zero_frequency = 0" "1 \<le> years zero_frequency"
    by (simp_all add: zero_frequency_def scenario_def)
  from zero_frequency_raises [OF h] h show ?thesis
    by blast
qed

subsection \<open>C3: totality on validated parameters\<close>

text \<open>
  C3 as stated fails: a fuel price of 0 passes the validation rules, and the division of
  line 116 raises in month 1.
\<close>

theorem free_fuel_counterexample:
  "passes_validation free_fuel \<and> run_projection free_fuel = Inl (ZeroDivisionError 116)"
  by code_simp

text \<open>
  C3, amended. For parameters that pass the validation rules, the loop divides by zero
  exactly when the fuel price is 0: then line 116 raises \<open>ZeroDivisionError\<close> in month 1,
  before any record exists. With any other fuel price no month raises
  \<open>ZeroDivisionError\<close>, and a run that returns has appended one record per month,
  numbered 1 to \<open>months\<close> in order. That the run returns is not claimed beyond this: the
  script also fails when a float overflows, which is outside the model.
\<close>

theorem zero_division_only_at_zero_price:
  assumes "passes_validation p"
  shows "(fuel_price p = 0 \<longrightarrow>
            month_step p 1 (initial_state p) = Inl (ZeroDivisionError 116)
            \<and> run_projection p = Inl (ZeroDivisionError 116))
       \<and> (fuel_price p \<noteq> 0 \<longrightarrow> (\<forall>line. run_projection p \<noteq> Inl (ZeroDivisionError line)))
       \<and> (\<forall>s. run_projection p = Inr s \<longrightarrow>
             length (data s) = nat (months p)
             \<and> map Month (data s) = map int [1..<Suc (nat (months p))])"
proof -
  from assms have cf: "cleaning_frequency p \<noteq> 0" and yr: "1 \<le> years p"
    by (simp_all add: passes_validation_def)
  have zero: "month_step p 1 (initial_state p) = Inl (ZeroDivisionError 116)
      \<and> run_projection p = Inl (ZeroDivisionError 116)"
    if fp: "fuel_price p = 0"
  proof -
    obtain s1 where "savings_policy p 1 (escalate p 1 (initial_state p)) = Inr s1"
      using savings_policy_total [OF cf] by blast
    with fp have st: "month_step p 1 (initial_state p) = Inl (ZeroDivisionError 116)"
      by (simp add: month_step_def py_div_def)
    then have "run_months p (Suc 0) = Inl (ZeroDivisionError 116)"
      by simp
    moreover from yr have "Suc 0 \<le> nat (months p)"
      by (simp add: months_def)
    ultimately have "run_months p (nat (months p)) = Inl (ZeroDivisionError 116)"
      by (rule run_months_failure)
    with st show ?thesis
      by (simp add: run_projection_def)
  qed
  have nonzero: "run_projection p \<noteq> Inl (ZeroDivisionError line)"
    if fp: "fuel_price p \<noteq> 0" for line
  proof -
    obtain s where "run_months p (nat (months p)) = Inr s"
      using run_months_total [OF cf fp] by blast
    then show ?thesis
      by (simp add: run_projection_def)
  qed
  have records: "length (data s) = nat (months p)
      \<and> map Month (data s) = map int [1..<Suc (nat (months p))]"
    if "run_projection p = Inr s" for s
  proof -
    from that have s: "run_months p (nat (months p)) = Inr s"
      by (simp add: run_projection_def)
    then have len: "length (data s) = nat (months p)"
      by (rule run_months_length)
    have "map Month (data s) = map int [1..<Suc (nat (months p))]"
    proof (rule nth_equalityI)
      show "length (map Month (data s)) = length (map int [1..<Suc (nat (months p))])"
        using len by simp
    next
      fix i
      assume "i < length (map Month (data s))"
      then have i: "i < nat (months p)"
        using len by simp
      then have "Month (data s ! i) = int (Suc i)"
        using s run_months_Month by blast
      with i len show "map Month (data s) ! i = map int [1..<Suc (nat (months p))] ! i"
        by (simp del: upt_Suc)
    qed
    with len show ?thesis
      by simp
  qed
  from zero nonzero records show ?thesis
    by blast
qed

theorem zero_division_only_at_zero_price_witness:
  "passes_validation scenario \<and> fuel_price scenario \<noteq> 0
   \<and> \<not> isl (run_projection scenario)
   \<and> map Month (data (projr (run_projection scenario))) = [1, 2, 3, 4, 5, 6, 7, 8, 9, 10, 11, 12]"
proof -
  have h: "passes_validation scenario" and fp: "fuel_price scenario \<noteq> 0"
    by code_simp+
  note t = zero_division_only_at_zero_price [OF h]
  from t fp have no: "run_projection scenario \<noteq> Inl (ZeroDivisionError line)" for line
    by blast
  obtain s where s: "run_projection scenario = Inr s"
  proof (cases "run_projection scenario")
    case (Inl e)
    obtain x where "e = ZeroDivisionError x"
      by (cases e)
    with Inl no [of x] show thesis
      by simp
  next
    case (Inr s)
    then show thesis by (rule that)
  qed
  have m: "nat (months scenario) = 12"
    by (simp add: months_def scenario_def)
  have u: "map int [1..<Suc 12] = [1, 2, 3, 4, 5, 6, 7, 8, 9, 10, 11, 12]"
    by code_simp
  from t s have "map Month (data s) = map int [1..<Suc (nat (months scenario))]"
    by blast
  with h fp s show ?thesis
    unfolding m u by simp
qed

subsection \<open>C4: profit and return on investment\<close>

text \<open>
  C4. When all costs and the yearly increase are non-negative, the cumulative total cost is
  never negative, and in every month of a run the values before rounding satisfy
  \<open>profit = cumulativeSavings - cumulativeTotalCost\<close>, \<open>roi = -1\<close> when the cumulative
  total cost is 0 and \<open>roi = profit / cumulativeTotalCost\<close> otherwise. Here \<open>s\<close> is the
  state before month \<open>n + 1\<close>, \<open>s'\<close> the state after it and \<open>l\<close> the values computed in
  that month.
\<close>

theorem profit_and_roi:
  assumes "costs_non_negative p" and "run_months p n = Inr s"
    and "month_step p (int (Suc n)) s = Inr (l, s')"
  shows "profit l = cumulative_savings s' - cumulative_total_cost s'
       \<and> 0 \<le> cumulative_total_cost s'
       \<and> (cumulative_total_cost s' = 0 \<longrightarrow> roi l = - 1)
       \<and> (cumulative_total_cost s' \<noteq> 0 \<longrightarrow> roi l = profit l / cumulative_total_cost s')"
proof -
  note f = month_step_fields [OF assms(3)]
  from assms(2,3) have "run_months p (Suc n) = Inr s'"
    by (rule run_months_step)
  with assms(1) have "0 \<le> cumulative_total_cost s'"
    by (rule total_cost_non_negative)
  with f(14) f(15) show ?thesis
    by auto
qed

theorem profit_and_roi_witness:
  "costs_non_negative scenario
   \<and> (\<exists>l s'. month_step scenario (int (Suc 0)) (initial_state scenario) = Inr (l, s')
         \<and> profit l = - 2100 \<and> cumulative_total_cost s' = 2100 \<and> roi l = - 1)"
proof -
  have c: "costs_non_negative scenario"
    by code_simp
  have r: "run_months scenario 0 = Inr (initial_state scenario)"
    by simp
  obtain l s' where st: "month_step scenario (int (Suc 0)) (initial_state scenario) = Inr (l, s')"
    using scenario_month_1 by (auto split: sum.splits)
  with scenario_month_1 have v: "cumulative_savings s' = 0" "cumulative_total_cost s' = 2100"
    by simp_all
  from profit_and_roi [OF c r st] v have "profit l = - 2100" and "roi l = - 1"
    by simp_all
  with c st v show ?thesis
    by blast
qed

subsection \<open>C5: the cumulative figures never decrease\<close>

text \<open>
  C5. When the costs, the yearly increase, the fuel parameters, the five saving
  percentages and the two shares are non-negative, the cumulative subscription cost, the
  cumulative savings and the cumulative total cost of any two consecutive records satisfy
  earlier \<open>\<le>\<close> later. This holds for the recorded (rounded) fields, and for the values
  before rounding in the states after the two months.
\<close>

theorem cumulative_monotone:
  assumes "costs_non_negative p" and "fuel_non_negative p" and "savings_non_negative p"
    and "shares_non_negative p" and "run_months p n = Inr s" and "Suc i < n"
  shows "Cumulative_Subscription_Cost (data s ! i) \<le> Cumulative_Subscription_Cost (data s ! Suc i)
       \<and> Cumulative_Savings (data s ! i) \<le> Cumulative_Savings (data s ! Suc i)
       \<and> Cumulative_Total_Cost (data s ! i) \<le> Cumulative_Total_Cost (data s ! Suc i)
       \<and> (\<exists>a b. run_months p (Suc i) = Inr a \<and> run_months p (Suc (Suc i)) = Inr b
             \<and> cumulative_sub_cost a \<le> cumulative_sub_cost b
             \<and> cumulative_savings a \<le> cumulative_savings b
             \<and> cumulative_total_cost a \<le> cumulative_total_cost b)"
proof -
  from assms(6) have "i < n" by simp
  from run_months_nth [OF assms(5) this] obtain s0 l a
    where "run_months p i = Inr s0" and "month_step p (int (Suc i)) s0 = Inr (l, a)"
      and ri: "data s ! i = make_record (int (Suc i)) a l"
    by blast
  then have a: "run_months p (Suc i) = Inr a"
    by (simp only: run_months_step)
  from run_months_nth [OF assms(5,6)] a obtain l' b
    where st: "month_step p (int (Suc (Suc i))) a = Inr (l', b)"
      and rj: "data s ! Suc i = make_record (int (Suc (Suc i))) b l'"
    by auto
  from a st have b: "run_months p (Suc (Suc i)) = Inr b"
    by (rule run_months_step)
  have n1: "0 \<le> sub_cost b"
    using assms(1) b by (rule sub_cost_non_negative)
  have n2: "0 \<le> fuel_cost_current b"
    using assms(1,2) b by (rule fuel_cost_non_negative)
  have n3: "0 \<le> saving_pct b"
    using assms(3,4) st by (rule saving_pct_non_negative)
  from assms(1) have n4: "0 \<le> cleaning_cost p" and n5: "0 \<le> one_time_cost p"
    and n6: "0 \<le> crew_cost p"
    by (simp_all add: costs_non_negative_def)
  note m = month_step_monotone [OF st n1 n2 n3 n4 n5 n6]
  from m have "py_round (cumulative_sub_cost a) \<le> py_round (cumulative_sub_cost b)"
    and "py_round (cumulative_savings a) \<le> py_round (cumulative_savings b)"
    and "py_round (cumulative_total_cost a) \<le> py_round (cumulative_total_cost b)"
    by (simp_all add: py_round_mono)
  then have "Cumulative_Subscription_Cost (data s ! i)
        \<le> Cumulative_Subscription_Cost (data s ! Suc i)"
    and "Cumulative_Savings (data s ! i) \<le> Cumulative_Savings (data s ! Suc i)"
    and "Cumulative_Total_Cost (data s ! i) \<le> Cumulative_Total_Cost (data s ! Suc i)"
    unfolding ri rj by (simp_all add: make_record_def)
  with a b m show ?thesis
    by blast
qed

theorem cumulative_monotone_witness:
  "costs_non_negative scenario \<and> fuel_non_negative scenario \<and> savings_non_negative scenario
   \<and> shares_non_negative scenario \<and> \<not> isl (run_months scenario 12)
   \<and> Cumulative_Subscription_Cost (data (projr (run_months scenario 12)) ! 7)
        \<le> Cumulative_Subscription_Cost (data (projr (run_months scenario 12)) ! Suc 7)
   \<and> Cumulative_Savings (data (projr (run_months scenario 12)) ! 7)
        \<le> Cumulative_Savings (data (projr (run_months scenario 12)) ! Suc 7)
   \<and> Cumulative_Total_Cost (data (projr (run_months scenario 12)) ! 7)
        \<le> Cumulative_Total_Cost (data (projr (run_months scenario 12)) ! Suc 7)"
proof -
  have h: "costs_non_negative scenario" "fuel_non_negative scenario"
    "savings_non_negative scenario" "shares_non_negative scenario"
    by code_simp+
  have ok: "cleaning_frequency scenario \<noteq> 0" "fuel_price scenario \<noteq> 0"
    by (simp_all add: scenario_def)
  obtain s where s: "run_months scenario 12 = Inr s"
    using run_months_total [OF ok] by blast
  have i: "Suc 7 < (12::nat)" by simp
  from cumulative_monotone [OF h s i] h s show ?thesis
    by simp
qed

subsection \<open>C6: the saving percentage is bounded\<close>




subsection \<open>C7: yearly escalation\<close>

text \<open>
  C7 as stated fails where the subscription costs do not add up to a whole number: the
  record holds the rounded cost, so the month-1 entry is not \<open>initialSubCost\<close>, and
  rounding the escalated month-1 entry is not the month-13 entry. With costs of 263.4, 250,
  250, 250 and 0 and an increase of 10 percent the entries are 1013 and 1115, while
  \<open>round(1013 * 1.1)\<close> is 1114.
\<close>

theorem fractional_cost_counterexample:
  "\<not> isl (run_projection fractional_cost)
   \<and> initial_sub_cost fractional_cost = 10134 / 10
   \<and> Subscription_Cost (data (projr (run_projection fractional_cost)) ! 0) = 1013
   \<and> Subscription_Cost (data (projr (run_projection fractional_cost)) ! 12) = 1115
   \<and> py_round (of_int 1013 * (1 + yearly_sub_increase fractional_cost)) = 1114"
proof -
  obtain s where s: "run_months fractional_cost 24 = Inr s"
    using run_months_total [OF fractional_cost_values(4,5)] by blast
  have "Subscription_Cost (data s ! 0) = py_round (10134 / 10)"
    using recorded_subscription_cost [OF s, of 0] by (simp add: fractional_cost_values)
  moreover have "Subscription_Cost (data s ! 12) = py_round (10134 / 10 * (1 + 1 / 10))"
    using recorded_subscription_cost [OF s, of 12] by (simp add: fractional_cost_values)
  moreover have "py_round (10134 / 10) = 1013" and "py_round (10134 / 10 * (1 + 1 / 10)) = 1115"
    and "py_round (of_int 1013 * (1 + 1 / 10)) = 1114"
    by (simp_all add: py_round_def Let_def)
  ultimately show ?thesis
    using s by (simp add: run_projection_def fractional_cost_values)
qed

text \<open>
  C7, amended. In a month \<open>m\<close> with \<open>m % 12 = 1\<close> and \<open>m > 1\<close> the fuel cost level and the
  subscription cost level are multiplied by \<open>1 + yearlySubIncrease\<close>, in every other month
  they are unchanged, and the month's own figures are computed from the levels after that
  step. For a contract of 2 or more years the recorded subscription cost of month 1 is
  \<open>round(initialSubCost)\<close> and that of month 13 is
  \<open>round(initialSubCost * (1 + yearlySubIncrease))\<close>. When \<open>initialSubCost\<close> is a whole
  number the month-1 entry equals it and the month-13 entry is the rounded escalation of
  the month-1 entry, as the claim has it.
\<close>

theorem yearly_escalation:
  assumes "2 \<le> years p" and "run_projection p = Inr s"
  shows "Subscription_Cost (data s ! 0) = py_round (initial_sub_cost p)
       \<and> Subscription_Cost (data s ! 12)
           = py_round (initial_sub_cost p * (1 + yearly_sub_increase p))
       \<and> ((\<exists>k. initial_sub_cost p = of_int k) \<longrightarrow>
             of_int (Subscription_Cost (data s ! 0)) = initial_sub_cost p
             \<and> Subscription_Cost (data s ! 12)
                 = py_round (of_int (Subscription_Cost (data s ! 0)) * (1 + yearly_sub_increase p)))
       \<and> (\<forall>m a l b. month_step p m a = Inr (l, b) \<longrightarrow>
             fuel_cost_current b
               = (if m mod 12 = 1 \<and> 1 < m
                  then fuel_cost_current a * (1 + yearly_sub_increase p)
                  else fuel_cost_current a)
             \<and> sub_cost b
               = (if m mod 12 = 1 \<and> 1 < m
                  then sub_cost a * (1 + yearly_sub_increase p)
                  else sub_cost a)
             \<and> cumulative_sub_cost b = cumulative_sub_cost a + sub_cost b
             \<and> monthly_fuel_mt l = fuel_cost_current b / fuel_price p
             \<and> fuel_saving_dollars l = fuel_cost_current b * (saving_pct b / 100)
             \<and> total_monthly_cost l = sub_cost b + hull_cleaning l + other_cost l)"
proof -
  from assms(1) have n: "0 < nat (months p)" "12 < nat (months p)"
    by (simp_all add: months_def)
  from assms(2) have s: "run_months p (nat (months p)) = Inr s"
    by (simp add: run_projection_def)
  have r0: "Subscription_Cost (data s ! 0) = py_round (initial_sub_cost p)"
    using recorded_subscription_cost [OF s n(1)] by simp
  have r12: "Subscription_Cost (data s ! 12)
      = py_round (initial_sub_cost p * (1 + yearly_sub_increase p))"
    using recorded_subscription_cost [OF s n(2)] by simp
  have whole: "of_int (Subscription_Cost (data s ! 0)) = initial_sub_cost p
      \<and> Subscription_Cost (data s ! 12)
          = py_round (of_int (Subscription_Cost (data s ! 0)) * (1 + yearly_sub_increase p))"
    if "\<exists>k. initial_sub_cost p = of_int k"
  proof -
    from that obtain k :: int where k: "initial_sub_cost p = of_int k"
      by blast
    then have "Subscription_Cost (data s ! 0) = k"
      using r0 by simp
    with k r12 show ?thesis
      by simp
  qed
  have step: "fuel_cost_current b
               = (if m mod 12 = 1 \<and> 1 < m
                  then fuel_cost_current a * (1 + yearly_sub_increase p)
                  else fuel_cost_current a)
             \<and> sub_cost b
               = (if m mod 12 = 1 \<and> 1 < m
                  then sub_cost a * (1 + yearly_sub_increase p)
                  else sub_cost a)
             \<and> cumulative_sub_cost b = cumulative_sub_cost a + sub_cost b
             \<and> monthly_fuel_mt l = fuel_cost_current b / fuel_price p
             \<and> fuel_saving_dollars l = fuel_cost_current b * (saving_pct b / 100)
             \<and> total_monthly_cost l = sub_cost b + hull_cleaning l + other_cost l"
    if "month_step p m a = Inr (l, b)" for m a l b
  proof -
    note f = month_step_fields [OF that]
    from f(3) f(4) f(5) f(7) f(9) f(12) show ?thesis
      by (simp add: escalate_levels)
  qed
  from r0 r12 whole step show ?thesis
    by blast
qed

theorem yearly_escalation_witness:
  "2 \<le> years two_years \<and> \<not> isl (run_projection two_years)
   \<and> Subscription_Cost (data (projr (run_projection two_years)) ! 0) = 1000
   \<and> Subscription_Cost (data (projr (run_projection two_years)) ! 12) = 1100"
proof -
  have y: "2 \<le> years two_years"
    by (simp add: two_years_def scenario_def)
  have ok: "cleaning_frequency two_years \<noteq> 0" "fuel_price two_years \<noteq> 0"
    by (simp_all add: two_years_def scenario_def)
  obtain s where "run_months two_years (nat (months two_years)) = Inr s"
    using run_months_total [OF ok] by blast
  then have s: "run_projection two_years = Inr s"
    by (simp add: run_projection_def)
  have v: "initial_sub_cost two_years = 1000" "yearly_sub_increase two_years = 1 / 10"
    by (simp_all add: two_years_def scenario_def initial_sub_cost_def yearly_sub_increase_def)
  have r: "py_round 1000 = 1000" "py_round 1100 = 1100"
    by (simp_all add: py_round_def Let_def)
  from yearly_escalation [OF y s] y s show ?thesis
    by (simp add: v r)
qed

subsection \<open>C8: the concrete scenario\<close>

text \<open>
  C8. For the scenario of the specification the run returns twelve records. In month 1 the
  recorded subscription cost is 1000, the recorded saving percentage is 0 and the total
  monthly cost is 2100. Month 9 is the first month with a cleaning charge: its recorded
  saving percentage is 3.7 and its hull-cleaning cost 15000. The ROI string of month 12 is
  \<open>profit / cumulativeTotalCost * 100\<close> in the format \<open>.1f\<close> followed by a percent sign,
  which is \<open>21.6%\<close>.
\<close>

theorem concrete_scenario:
  "\<exists>l1 s1 s11 l12 s12.
      month_step scenario 1 (initial_state scenario) = Inr (l1, s1)
      \<and> total_monthly_cost l1 = 2100
      \<and> run_months scenario 11 = Inr s11
      \<and> month_step scenario 12 s11 = Inr (l12, s12)
      \<and> run_projection scenario = Inr s12
      \<and> length (data s12) = 12
      \<and> Month (data s12 ! 0) = 1
      \<and> Subscription_Cost (data s12 ! 0) = 1000
      \<and> Savings_in_Fuel (data s12 ! 0) = 0
      \<and> Month (data s12 ! 8) = 9
      \<and> map Hull_Cleaning_Cost (take 8 (data s12)) = [0, 0, 0, 0, 0, 0, 0, 0]
      \<and> Savings_in_Fuel (data s12 ! 8) = 37 / 10
      \<and> Hull_Cleaning_Cost (data s12 ! 8) = 15000
      \<and> Month (data s12 ! 11) = 12
      \<and> Cumulative_ROI (data s12 ! 11)
          = format_1f (profit l12 / cumulative_total_cost s12 * 100) @ ''%''
      \<and> Cumulative_ROI (data s12 ! 11) = ''21.6%''"
proof -
  obtain l1 s1 where m1: "month_step scenario 1 (initial_state scenario) = Inr (l1, s1)"
    using scenario_month_1 by (auto split: sum.splits)
  with scenario_month_1 have t1: "total_monthly_cost l1 = 2100"
    by simp
  obtain s11 where s11: "run_months scenario 11 = Inr s11"
    using scenario_month_12 by (auto split: sum.splits)
  obtain l12 s12 where m12: "month_step scenario 12 s11 = Inr (l12, s12)"
    using scenario_month_12 s11 by (auto split: sum.splits)
  from m12 have "month_step scenario (int (Suc 11)) s11 = Inr (l12, s12)"
    by simp
  with s11 have "run_months scenario (Suc 11) = Inr s12"
    by (rule run_months_step)
  moreover have "nat (months scenario) = Suc 11"
    by (simp add: months_def scenario_def)
  ultimately have run: "run_projection scenario = Inr s12"
    by (simp only: run_projection_def)
  note facts = scenario_month_12 [unfolded s11 m12 sum.case prod.case]
  show ?thesis
  proof (intro exI conjI)
    show "month_step scenario 1 (initial_state scenario) = Inr (l1, s1)"
      by (rule m1)
    show "total_monthly_cost l1 = 2100"
      by (rule t1)
    show "run_months scenario 11 = Inr s11"
      by (rule s11)
    show "month_step scenario 12 s11 = Inr (l12, s12)"
      by (rule m12)
    show "run_projection scenario = Inr s12"
      by (rule run)
  qed (use facts in blast)+
qed

subsection \<open>C9: the cleaning charge and the cleaning branch\<close>

text \<open>
  C9 as stated fails in its converse: a saving percentage equal to
  \<open>totalSavingPct * cleaningShare\<close> does not mean that a cleaning charge was made. With a
  ramp-up share equal to the post-cleaning share (both 100 percent) and a cleaning cost
  of 15000, month 7 is a ramp-period month: its saving percentage is 3.7, which is
  \<open>totalSavingPct * cleaningShare\<close>, and its hull-cleaning cost is 0.
\<close>

theorem equal_shares_counterexample:
  "\<not> isl (run_months equal_shares 6)
   \<and> \<not> isl (month_step equal_shares 7 (projr (run_months equal_shares 6)))
   \<and> cleaning_cost equal_shares = 15000
   \<and> total_saving_pct equal_shares * post_cleaning_saving_pct equal_shares = 37 / 10
   \<and> saving_pct (snd (projr (month_step equal_shares 7 (projr (run_months equal_shares 6)))))
       = 37 / 10
   \<and> hull_cleaning (fst (projr (month_step equal_shares 7 (projr (run_months equal_shares 6)))))
       = 0
   \<and> Savings_in_Fuel
        (last (data (snd (projr (month_step equal_shares 7 (projr (run_months equal_shares 6)))))))
       = 37 / 10
   \<and> Hull_Cleaning_Cost
        (last (data (snd (projr (month_step equal_shares 7 (projr (run_months equal_shares 6)))))))
       = 0"
proof -
  obtain s6 where s6: "run_months equal_shares 6 = Inr s6"
    using equal_shares_month_7 by (auto split: sum.splits)
  obtain l7 s7 where m7: "month_step equal_shares 7 s6 = Inr (l7, s7)"
    using equal_shares_month_7 s6 by (auto split: sum.splits)
  have "cleaning_cost equal_shares = 15000"
    and "total_saving_pct equal_shares * post_cleaning_saving_pct equal_shares = 37 / 10"
    by (simp_all add: equal_shares_def scenario_def total_saving_pct_def
        post_cleaning_saving_pct_def)
  with equal_shares_month_7 s6 m7 show ?thesis
    by simp
qed

text \<open>
  C9, amended. In every month of a run the hull-cleaning cost is \<open>cleaningCost\<close> exactly
  when \<open>m % cleaningFrequency = 0\<close> and \<open>m \<ge> rampUp\<close>, and 0 otherwise; in exactly those
  months the savings policy takes its cleaning branch, so the saving percentage and
  \<open>lastSavingPct\<close> are \<open>totalSavingPct * cleaningShare\<close>; in every other month the saving
  percentage comes from one of the other three branches. Hence a nonzero cleaning charge
  implies a saving percentage of \<open>totalSavingPct * cleaningShare\<close>. The record holds both
  values rounded.
\<close>

theorem cleaning_charge_and_branch:
  assumes "run_months p n = Inr s" and "month_step p (int (Suc n)) s = Inr (l, s')"
  shows "(let m = int (Suc n); R = ramp_up p; F = cleaning_frequency p;
              cleaned = total_saving_pct p * post_cleaning_saving_pct p
          in (m mod F = 0 \<and> R \<le> m \<longrightarrow>
                hull_cleaning l = cleaning_cost p \<and> saving_pct s' = cleaned
                \<and> last_saving_pct s' = cleaned)
           \<and> (\<not> (m mod F = 0 \<and> R \<le> m) \<longrightarrow>
                hull_cleaning l = 0
                \<and> (saving_pct s' = 0
                    \<or> saving_pct s' = total_saving_pct p * ramp_up_saving_pct p
                    \<or> saving_pct s' = max 0 (last_saving_pct s - monthly_deterioration p * 100)))
           \<and> (hull_cleaning l \<noteq> 0 \<longrightarrow> saving_pct s' = cleaned)
           \<and> Hull_Cleaning_Cost (last (data s')) = py_round (hull_cleaning l)
           \<and> Savings_in_Fuel (last (data s')) = py_round2 (saving_pct s'))"
proof -
  note f = month_step_fields [OF assms(2)]
  from assms(2) obtain s1
    where sp: "savings_policy p (int (Suc n)) (escalate p (int (Suc n)) s) = Inr s1"
      and sv: "saving_pct s' = saving_pct s1" and ls: "last_saving_pct s' = last_saving_pct s1"
    using month_step_policy by blast
  note br = savings_policy_branches [OF sp, unfolded escalate_frame, folded sv ls]
  have pos: "1 \<le> int (Suc n)" by simp
  have no_ramp: "\<not> (ramp_up p < int (Suc n) \<and> int (Suc n) < cleaning_frequency p)"
    if "int (Suc n) mod cleaning_frequency p = 0"
  proof
    assume a: "ramp_up p < int (Suc n) \<and> int (Suc n) < cleaning_frequency p"
    with pos have "int (Suc n) mod cleaning_frequency p = int (Suc n)"
      by (intro mod_pos_pos_trivial) simp_all
    with that pos show False by simp
  qed
  have cleaning: "hull_cleaning l = cleaning_cost p
      \<and> saving_pct s' = total_saving_pct p * post_cleaning_saving_pct p
      \<and> last_saving_pct s' = total_saving_pct p * post_cleaning_saving_pct p"
    if c: "int (Suc n) mod cleaning_frequency p = 0 \<and> ramp_up p \<le> int (Suc n)"
  proof -
    from c have "\<not> int (Suc n) < ramp_up p" by simp
    moreover from c have "\<not> (ramp_up p < int (Suc n) \<and> int (Suc n) < cleaning_frequency p)"
      by (intro no_ramp) simp
    ultimately show ?thesis
      using br(3) c f(10) by simp
  qed
  have other: "hull_cleaning l = 0
      \<and> (saving_pct s' = 0
          \<or> saving_pct s' = total_saving_pct p * ramp_up_saving_pct p
          \<or> saving_pct s' = max 0 (last_saving_pct s - monthly_deterioration p * 100))"
    if c: "\<not> (int (Suc n) mod cleaning_frequency p = 0 \<and> ramp_up p \<le> int (Suc n))"
  proof -
    have "hull_cleaning l = 0"
      unfolding f(10) by (simp only: c if_False)
    moreover have "saving_pct s' = 0
          \<or> saving_pct s' = total_saving_pct p * ramp_up_saving_pct p
          \<or> saving_pct s' = max 0 (last_saving_pct s - monthly_deterioration p * 100)"
      using br(1) br(2) br(4) c by blast
    ultimately show ?thesis by simp
  qed
  have charged: "saving_pct s' = total_saving_pct p * post_cleaning_saving_pct p"
    if "hull_cleaning l \<noteq> 0"
    using that cleaning other by blast
  have rec: "Hull_Cleaning_Cost (last (data s')) = py_round (hull_cleaning l)"
    "Savings_in_Fuel (last (data s')) = py_round2 (saving_pct s')"
    unfolding f(16) by (simp_all add: make_record_def)
  from cleaning other charged rec show ?thesis
    unfolding Let_def by blast
qed

theorem cleaning_charge_and_branch_witness:
  "\<exists>s l s'. run_months scenario 8 = Inr s
      \<and> month_step scenario (int (Suc 8)) s = Inr (l, s')
      \<and> hull_cleaning l = 15000 \<and> saving_pct s' = 37 / 10"
proof -
  have ok: "cleaning_frequency scenario \<noteq> 0" "fuel_price scenario \<noteq> 0"
    by (simp_all add: scenario_def)
  obtain s where r: "run_months scenario 8 = Inr s"
    using run_months_total [OF ok] by blast
  obtain l s' where st: "month_step scenario (int (Suc 8)) s = Inr (l, s')"
    using month_step_total [OF ok] by blast
  have c: "int (Suc 8) mod cleaning_frequency scenario = 0 \<and> ramp_up scenario \<le> int (Suc 8)"
    by (simp add: scenario_def)
  have v: "cleaning_cost scenario = 15000"
    "total_saving_pct scenario * post_cleaning_saving_pct scenario = 37 / 10"
    by (simp_all add: scenario_def total_saving_pct_def post_cleaning_saving_pct_def)
  from cleaning_charge_and_branch [OF r st] c
  have "hull_cleaning l = cleaning_cost scenario
      \<and> saving_pct s' = total_saving_pct scenario * post_cleaning_saving_pct scenario"
    unfolding Let_def by blast
  with r st show ?thesis
    unfolding v by blast
qed

subsection \<open>C10: the fuel mass follows the escalation\<close>



end
